theory Spec2Isabelle
  imports Complex_Main "HOL-Library.Word" "HOL-Library.Sublist"
begin

text \<open>
  An embedding of \<open>src/main.ts\<close>, the action that asks a completion service for
  remarks on the diff of a pull request and publishes them as one review. The embedding
  covers \<open>analyzeCode\<close> with its grouping of chunks, \<open>getAIResponse\<close>,
  \<open>createComment\<close>, the final cut to \<open>MAX_COMMENTS_PER_PR\<close> comments and \<open>main\<close>.
  The services it calls (the host of the repository, the completion service, the diff
  parser, the glob matcher) are parameters.
\<close>

section \<open>JavaScript values\<close>

text \<open>
  A JavaScript string is a sequence of UTF-16 code units and \<open>.length\<close> counts them.
  \<open>utf16\<close> turns an ASCII literal into such a string.
\<close>

type_synonym jsstring = "16 word list"

definition utf16 :: "string \<Rightarrow> jsstring" where
  "utf16 s = map (\<lambda>c. of_char c) s"

text \<open>
  A JavaScript number is NaN, an infinity or a finite value. Finite values are kept as
  rationals (every finite double is one); the program only compares numbers and never
  computes with them, so no rounding is involved.
\<close>

datatype jsnumber = NaN | NegInf | Fin rat | PosInf

definition isNaN :: "jsnumber \<Rightarrow> bool" where
  "isNaN n = (n = NaN)"

text \<open>The relational operators \<open><\<close> and \<open><=\<close> on numbers: false whenever NaN is involved.\<close>

fun js_less :: "jsnumber \<Rightarrow> jsnumber \<Rightarrow> bool" where
  "js_less NaN _ = False"
| "js_less _ NaN = False"
| "js_less PosInf _ = False"
| "js_less _ NegInf = False"
| "js_less NegInf _ = True"
| "js_less _ PosInf = True"
| "js_less (Fin a) (Fin b) = (a < b)"

definition js_le :: "jsnumber \<Rightarrow> jsnumber \<Rightarrow> bool" where
  "js_le a b = (\<not> isNaN a \<and> \<not> isNaN b \<and> \<not> js_less b a)"

text \<open>
  What \<open>JSON.parse\<close> returns. An object is the list of its own properties, each key
  once. \<open>undefined\<close> is \<open>None\<close> of \<open>json option\<close>.
\<close>

datatype json =
    JNull
  | JBool bool
  | JNum jsnumber
  | JStr jsstring
  | JArr "json list"
  | JObj "(jsstring \<times> json) list"

datatype error = TypeError | RequestError

fun ebind :: "error + 'a \<Rightarrow> ('a \<Rightarrow> error + 'b) \<Rightarrow> error + 'b" where
  "ebind (Inl e) f = Inl e"
| "ebind (Inr x) f = f x"

text \<open>
  The conversions of the language that the program relies on and that are not spelled
  out here are parameters: the numeric value of a string (\<open>Number("12")\<close>), and the
  conversion of an array or object to a string, which goes through \<open>toString\<close> and
  throws a TypeError when an own property hides it. The numeric value of an array or
  object is the numeric value of that string.
\<close>

record runtime =
  StringToNumber :: "jsstring \<Rightarrow> jsnumber"
  ObjectToString :: "json \<Rightarrow> error + jsstring"

fun ToNumber :: "runtime \<Rightarrow> json option \<Rightarrow> error + jsnumber" where
  "ToNumber rt None = Inr NaN"
| "ToNumber rt (Some JNull) = Inr (Fin 0)"
| "ToNumber rt (Some (JBool b)) = Inr (Fin (if b then 1 else 0))"
| "ToNumber rt (Some (JNum n)) = Inr n"
| "ToNumber rt (Some (JStr s)) = Inr (StringToNumber rt s)"
| "ToNumber rt (Some v) = ebind (ObjectToString rt v) (\<lambda>s. Inr (StringToNumber rt s))"

text \<open>
  A value inside a template literal is converted to a string; only the conversion of an
  array or object can throw. The string itself goes to the log and is not kept.
\<close>

fun interpolate :: "runtime \<Rightarrow> json option \<Rightarrow> error + unit" where
  "interpolate rt (Some (JArr xs)) = ebind (ObjectToString rt (JArr xs)) (\<lambda>s. Inr ())"
| "interpolate rt (Some (JObj kvs)) = ebind (ObjectToString rt (JObj kvs)) (\<lambda>s. Inr ())"
| "interpolate rt v = Inr ()"

text \<open>
  Reading a property that no prototype defines (\<open>reviews\<close>, \<open>lineNumber\<close>,
  \<open>reviewComment\<close>): a TypeError on \<open>null\<close> and \<open>undefined\<close>, the own property of
  an object, \<open>undefined\<close> on everything else.
\<close>

fun get_prop :: "json option \<Rightarrow> jsstring \<Rightarrow> error + json option" where
  "get_prop None k = Inl TypeError"
| "get_prop (Some JNull) k = Inl TypeError"
| "get_prop (Some (JObj kvs)) k = Inr (map_of kvs k)"
| "get_prop (Some v) k = Inr None"

text \<open>Reading \<open>.length\<close>: strings and arrays have one of their own.\<close>

fun get_length :: "json option \<Rightarrow> error + json option" where
  "get_length None = Inl TypeError"
| "get_length (Some JNull) = Inl TypeError"
| "get_length (Some (JStr s)) = Inr (Some (JNum (Fin (of_nat (length s)))))"
| "get_length (Some (JArr xs)) = Inr (Some (JNum (Fin (of_nat (length xs)))))"
| "get_length (Some (JObj kvs)) = Inr (map_of kvs (utf16 ''length''))"
| "get_length (Some v) = Inr None"

fun truthy :: "json option \<Rightarrow> bool" where
  "truthy None = False"
| "truthy (Some JNull) = False"
| "truthy (Some (JBool b)) = b"
| "truthy (Some (JNum n)) = (n \<noteq> NaN \<and> n \<noteq> Fin 0)"
| "truthy (Some (JStr s)) = (s \<noteq> [])"
| "truthy (Some v) = True"

text \<open>
  \<open>xs.slice(0, end)\<close>: the end is truncated to an integer, NaN counts as 0, a negative
  end counts from the back of the array.
\<close>

definition trunc :: "rat \<Rightarrow> int" where
  "trunc q = (if q < 0 then \<lceil>q\<rceil> else \<lfloor>q\<rfloor>)"

fun slice0 :: "'a list \<Rightarrow> jsnumber \<Rightarrow> 'a list" where
  "slice0 xs NaN = []"
| "slice0 xs NegInf = []"
| "slice0 xs PosInf = xs"
| "slice0 xs (Fin q) =
     (if trunc q < 0 then take (nat (int (length xs) + trunc q)) xs
      else take (nat (trunc q)) xs)"

text \<open>
  \<open>parseInt(s, 10)\<close>: leading white space is skipped, then an optional sign, then the
  longest run of decimal digits; NaN when there is no digit. The value is kept exact:
  \<open>slice\<close> cannot tell it from the double it is rounded to.
\<close>

definition is_ws :: "16 word \<Rightarrow> bool" where
  "is_ws c = (c \<in> {0x9, 0xA, 0xB, 0xC, 0xD, 0x20, 0xA0, 0x1680, 0x2028, 0x2029, 0x202F,
                   0x205F, 0x3000, 0xFEFF} \<or> (0x2000 \<le> c \<and> c \<le> 0x200A))"

definition is_digit :: "16 word \<Rightarrow> bool" where
  "is_digit c = (0x30 \<le> c \<and> c \<le> 0x39)"

definition digits_value :: "jsstring \<Rightarrow> int" where
  "digits_value ds = foldl (\<lambda>a d. 10 * a + (uint d - 48)) 0 ds"

definition parseInt10 :: "jsstring \<Rightarrow> jsnumber" where
  "parseInt10 input =
     (let s = dropWhile is_ws input;
          sign = (case s of c # r \<Rightarrow> if c = 0x2D then - 1 else 1 | [] \<Rightarrow> 1);
          s' = (case s of c # r \<Rightarrow> if c = 0x2D \<or> c = 0x2B then r else s | [] \<Rightarrow> []);
          ds = takeWhile is_digit s'
      in if ds = [] then NaN else Fin (of_int (sign * digits_value ds)))"

section \<open>The parsed diff\<close>

text \<open>
  A change of \<open>parse-diff\<close>: an added or a deleted line with its line number \<open>ln\<close>, or
  a context line with \<open>ln1\<close> and \<open>ln2\<close>; each with the text of the line.
\<close>

datatype change =
    AddChange nat jsstring
  | DeleteChange nat jsstring
  | NormalChange nat nat jsstring

record Chunk =
  content :: jsstring
  changes :: "change list"

record File =
  to :: "jsstring option"
  chunks :: "Chunk list"

record PRDetails =
  owner :: jsstring
  repo :: jsstring
  pull_number :: nat
  title :: jsstring
  description :: jsstring

section \<open>The prompt and the completion\<close>

text \<open>
  The prompt is kept as the values that \<open>createPrompt\<close> puts into its template: the
  file's path, the title and the description of the pull request, the content of the
  chunk, and each change with the line number printed before it
  (\<open>c.ln ? c.ln : c.ln2\<close>).
\<close>

record prompt =
  p_file :: "jsstring option"
  p_title :: jsstring
  p_description :: jsstring
  p_content :: jsstring
  p_lines :: "(nat option \<times> jsstring) list"

fun shown_line :: "change \<Rightarrow> nat option" where
  "shown_line (AddChange n c) = (if n \<noteq> 0 then Some n else None)"
| "shown_line (DeleteChange n c) = (if n \<noteq> 0 then Some n else None)"
| "shown_line (NormalChange n1 n2 c) = Some n2"

fun change_content :: "change \<Rightarrow> jsstring" where
  "change_content (AddChange n c) = c"
| "change_content (DeleteChange n c) = c"
| "change_content (NormalChange n1 n2 c) = c"

definition createPrompt :: "File \<Rightarrow> Chunk \<Rightarrow> PRDetails \<Rightarrow> prompt" where
  "createPrompt file chunk prDetails =
     \<lparr>p_file = to file, p_title = title prDetails, p_description = description prDetails,
      p_content = content chunk,
      p_lines = map (\<lambda>c. (shown_line c, change_content c)) (changes chunk)\<rparr>"

text \<open>
  What one call of the completion service does inside \<open>getAIResponse\<close>: the request
  throws (or the response has no first choice), the reply has no content (then
  \<open>"{}"\<close> is parsed), the content is not JSON, or the content parses to a value.
\<close>

datatype completion = RequestFails | NoContent | Malformed | Parsed json

fun getAIResponse :: "completion \<Rightarrow> json option" where
  "getAIResponse RequestFails = Some JNull"
| "getAIResponse NoContent = None"
| "getAIResponse Malformed = Some JNull"
| "getAIResponse (Parsed v) =
     (case get_prop (Some v) (utf16 ''reviews'') of Inl e \<Rightarrow> Some JNull | Inr r \<Rightarrow> r)"

section \<open>The comment assembler\<close>

record comment =
  body :: json
  path :: jsstring
  line :: jsnumber

text \<open>
  The callback of \<open>flatMap\<close> in \<open>createComment\<close>, for one element of the reply.
  Before it drops a suggestion it logs the offending field in a template literal.
\<close>

definition comment_of :: "runtime \<Rightarrow> File \<Rightarrow> json \<Rightarrow> error + comment list" where
  "comment_of rt file aiResponse =
     (case to file of
        None \<Rightarrow> Inr []
      | Some p \<Rightarrow>
          if p = [] then Inr []
          else
            ebind (get_prop (Some aiResponse) (utf16 ''lineNumber'')) (\<lambda>ln.
            ebind (ToNumber rt ln) (\<lambda>lineNumber.
              if isNaN lineNumber \<or> js_le lineNumber (Fin 0)
              then ebind (interpolate rt ln) (\<lambda>u. Inr [])
              else
                ebind (get_prop (Some aiResponse) (utf16 ''reviewComment'')) (\<lambda>rc.
                ebind (get_length rc) (\<lambda>len.
                ebind (ToNumber rt len) (\<lambda>n.
                  if js_less n (Fin 20) then ebind (interpolate rt rc) (\<lambda>u. Inr [])
                  else (case rc of
                          None \<Rightarrow> Inl TypeError
                        | Some b \<Rightarrow> Inr [\<lparr>body = b, path = p, line = lineNumber\<rparr>])))))))"

fun flatMap :: "('a \<Rightarrow> error + 'b list) \<Rightarrow> 'a list \<Rightarrow> error + 'b list" where
  "flatMap f [] = Inr []"
| "flatMap f (x # xs) = ebind (f x) (\<lambda>ys. ebind (flatMap f xs) (\<lambda>zs. Inr (ys @ zs)))"

fun createComment :: "runtime \<Rightarrow> File \<Rightarrow> Chunk \<Rightarrow> json option \<Rightarrow> error + comment list" where
  "createComment rt file chunk (Some (JArr aiResponses)) = flatMap (comment_of rt file) aiResponses"
| "createComment rt file chunk v = Inl TypeError"






section \<open>The analysis loop\<close>

text \<open>
  What a run is given from outside: the conversions of the runtime, the action's input
  \<open>MAX_COMMENTS_PER_PR\<close> as \<open>core.getInput\<close> returns it (empty when unset), and the
  completion service, which answers the \<open>n\<close>-th request of the run.
\<close>

record env =
  conversions :: runtime
  max_comments_input :: jsstring
  completions :: "nat \<Rightarrow> prompt \<Rightarrow> completion"

definition MAX_COMMENTS_PER_PR :: "env \<Rightarrow> jsnumber" where
  "MAX_COMMENTS_PER_PR E =
     parseInt10 (if max_comments_input E = [] then utf16 ''10'' else max_comments_input E)"

definition maxChangesPerChunk :: nat where
  "maxChangesPerChunk = 100"

record astate =
  comments :: "comment list"
  calls :: nat

text \<open>
  The block that \<open>analyzeCode\<close> repeats for every unit it reviews: build the prompt,
  ask for a completion, turn a truthy reply into comments and push them. An exception of
  \<open>createComment\<close> is not caught here.
\<close>

definition review :: "env \<Rightarrow> PRDetails \<Rightarrow> File \<Rightarrow> Chunk \<Rightarrow> astate \<Rightarrow> error + astate" where
  "review E prDetails file chunk st =
     (let prompt = createPrompt file chunk prDetails;
          aiResponse = getAIResponse (completions E (calls st) prompt);
          st' = st\<lparr>calls := Suc (calls st)\<rparr>
      in if truthy aiResponse then
           ebind (createComment (conversions E) file chunk aiResponse) (\<lambda>newComments.
             Inr (st'\<lparr>comments := comments st' @ newComments\<rparr>))
         else Inr st')"

fun join_nl :: "jsstring list \<Rightarrow> jsstring" where
  "join_nl [] = []"
| "join_nl [x] = x"
| "join_nl (x # xs) = x @ [0xA] @ join_nl xs"

definition whole_file :: "File \<Rightarrow> Chunk" where
  "whole_file file =
     \<lparr>content = join_nl (map content (chunks file)),
      changes = concat (map changes (chunks file))\<rparr>"

definition combine :: "Chunk \<Rightarrow> Chunk \<Rightarrow> Chunk" where
  "combine chunk nextChunk =
     \<lparr>content = content chunk @ [0xA] @ content nextChunk,
      changes = changes chunk @ changes nextChunk\<rparr>"

text \<open>The loop over the chunks of a file with more than three chunks, from index \<open>i\<close>.\<close>

function chunk_loop :: "env \<Rightarrow> PRDetails \<Rightarrow> File \<Rightarrow> nat \<Rightarrow> astate \<Rightarrow> error + astate" where
  "chunk_loop E prDetails file i st =
     (if i < length (chunks file) then
        (let chunk = chunks file ! i in
         if length (changes chunk) < 3 then chunk_loop E prDetails file (i + 1) st
         else if length (changes chunk) > maxChangesPerChunk then
           (case review E prDetails file chunk st of
              Inl e \<Rightarrow> Inl e
            | Inr st' \<Rightarrow> chunk_loop E prDetails file (i + 1) st')
         else if i < length (chunks file) - 1 \<and>
                 length (changes chunk @ changes (chunks file ! (i + 1))) \<le> maxChangesPerChunk then
           (case review E prDetails file (combine chunk (chunks file ! (i + 1))) st of
              Inl e \<Rightarrow> Inl e
            | Inr st' \<Rightarrow> chunk_loop E prDetails file (i + 2) st')
         else
           (case review E prDetails file chunk st of
              Inl e \<Rightarrow> Inl e
            | Inr st' \<Rightarrow> chunk_loop E prDetails file (i + 1) st'))
      else Inr st)"
  by pat_completeness auto
termination
  by (relation "measure (\<lambda>(E, prDetails, file, i, st). length (chunks file) - i)") auto

text \<open>The loop over the files of the parsed diff.\<close>

fun file_loop :: "env \<Rightarrow> PRDetails \<Rightarrow> File list \<Rightarrow> astate \<Rightarrow> error + astate" where
  "file_loop E prDetails [] st = Inr st"
| "file_loop E prDetails (file # rest) st =
     (if to file = Some (utf16 ''/dev/null'') then file_loop E prDetails rest st
      else if length (chunks file) \<le> 3 then
        (case review E prDetails file (whole_file file) st of
           Inl e \<Rightarrow> Inl e
         | Inr st' \<Rightarrow> file_loop E prDetails rest st')
      else
        (case chunk_loop E prDetails file 0 st of
           Inl e \<Rightarrow> Inl e
         | Inr st' \<Rightarrow> file_loop E prDetails rest st'))"

text \<open>The comments accumulated over all files, before the final cut.\<close>

definition accumulated :: "env \<Rightarrow> File list \<Rightarrow> PRDetails \<Rightarrow> error + comment list" where
  "accumulated E parsedDiff prDetails =
     (case file_loop E prDetails parsedDiff \<lparr>comments = [], calls = 0\<rparr> of
        Inl e \<Rightarrow> Inl e
      | Inr st \<Rightarrow> Inr (comments st))"

definition analyzeCode :: "env \<Rightarrow> File list \<Rightarrow> PRDetails \<Rightarrow> error + comment list" where
  "analyzeCode E parsedDiff prDetails =
     (case accumulated E parsedDiff prDetails of
        Inl e \<Rightarrow> Inl e
      | Inr cs \<Rightarrow> Inr (slice0 cs (MAX_COMMENTS_PER_PR E)))"

section \<open>The chunk grouper\<close>

text \<open>
  The units that the loops above hand to \<open>review\<close>, without the reviewing: the same
  passes with the same tests. Each unit is paired with the indices of the chunks it was
  built from.
\<close>

function group_from :: "Chunk list \<Rightarrow> nat \<Rightarrow> (nat list \<times> Chunk) list" where
  "group_from cs i =
     (if i < length cs then
        (let chunk = cs ! i in
         if length (changes chunk) < 3 then group_from cs (i + 1)
         else if length (changes chunk) > maxChangesPerChunk then
           ([i], chunk) # group_from cs (i + 1)
         else if i < length cs - 1 \<and>
                 length (changes chunk @ changes (cs ! (i + 1))) \<le> maxChangesPerChunk then
           ([i, i + 1], combine chunk (cs ! (i + 1))) # group_from cs (i + 2)
         else ([i], chunk) # group_from cs (i + 1))
      else [])"
  by pat_completeness auto
termination
  by (relation "measure (\<lambda>(cs, i). length cs - i)") auto

definition file_units :: "File \<Rightarrow> (nat list \<times> Chunk) list" where
  "file_units file =
     (if to file = Some (utf16 ''/dev/null'') then []
      else if length (chunks file) \<le> 3 then [([0..<length (chunks file)], whole_file file)]
      else group_from (chunks file) 0)"

text \<open>Reviewing a list of units of one file in order, stopping at the first exception.\<close>

fun review_all :: "env \<Rightarrow> PRDetails \<Rightarrow> File \<Rightarrow> Chunk list \<Rightarrow> astate \<Rightarrow> error + astate" where
  "review_all E prDetails file [] st = Inr st"
| "review_all E prDetails file (u # us) st =
     (case review E prDetails file u st of
        Inl e \<Rightarrow> Inl e
      | Inr st' \<Rightarrow> review_all E prDetails file us st')"

section \<open>The run\<close>

text \<open>
  The collaborators of \<open>main\<close>: the metadata of the pull request, the action of the
  event, the two sources of the diff, the diff parser, the exclusion patterns with their
  matcher, and the call that creates the review. Each call to the outside either throws
  or returns.
\<close>

record world =
  pr_details :: "error + PRDetails"
  event_action :: "error + jsstring option"
  compare_commits :: "error + jsstring"
  get_diff :: "error + jsstring option"
  parseDiff :: "jsstring \<Rightarrow> File list"
  exclude_patterns :: "jsstring list"
  minimatch :: "jsstring \<Rightarrow> jsstring \<Rightarrow> bool"
  create_review :: "comment list \<Rightarrow> error + unit"

text \<open>
  What a run leaves behind: the comment lists passed to \<open>createReviewComment\<close>, and the
  exit code of the process (1 from the handler of \<open>main().catch\<close>, 0 otherwise).
\<close>

record outcome =
  review_calls :: "comment list list"
  exit_code :: nat

text \<open>
  The first half of \<open>main\<close>, up to the filtered diff; \<open>None\<close> is the early return
  after "No diff found".
\<close>

definition acquire :: "world \<Rightarrow> error + (PRDetails \<times> File list) option" where
  "acquire W =
     ebind (pr_details W) (\<lambda>prDetails.
     ebind (event_action W) (\<lambda>action.
     ebind (if action = Some (utf16 ''synchronize'')
            then ebind (compare_commits W) (\<lambda>d. Inr (Some d))
            else get_diff W) (\<lambda>diff.
       case diff of
         None \<Rightarrow> Inr None
       | Some d \<Rightarrow>
           if d = [] then Inr None
           else Inr (Some (prDetails,
                  filter (\<lambda>file. \<not> list_ex (minimatch W (case to file of None \<Rightarrow> [] | Some t \<Rightarrow> t))
                                           (exclude_patterns W))
                         (parseDiff W d))))))"

definition main :: "world \<Rightarrow> env \<Rightarrow> outcome" where
  "main W E =
     (case acquire W of
        Inl e \<Rightarrow> \<lparr>review_calls = [], exit_code = 1\<rparr>
      | Inr None \<Rightarrow> \<lparr>review_calls = [], exit_code = 0\<rparr>
      | Inr (Some (prDetails, filteredDiff)) \<Rightarrow>
          (case analyzeCode E filteredDiff prDetails of
             Inl e \<Rightarrow> \<lparr>review_calls = [], exit_code = 1\<rparr>
           | Inr cs \<Rightarrow>
               if length cs > 0 then
                 (case create_review W cs of
                    Inl e \<Rightarrow> \<lparr>review_calls = [cs], exit_code = 1\<rparr>
                  | Inr u \<Rightarrow> \<lparr>review_calls = [cs], exit_code = 0\<rparr>)
               else \<lparr>review_calls = [], exit_code = 0\<rparr>))"

section \<open>Sample inputs\<close>

text \<open>A hunk with \<open>n\<close> added lines, numbered from \<open>first\<close>.\<close>

definition hunk :: "nat \<Rightarrow> nat \<Rightarrow> Chunk" where
  "hunk first n =
     \<lparr>content = utf16 ''@@'',
      changes = map (\<lambda>k. AddChange (first + k) (utf16 ''+x'')) [0..<n]\<rparr>"

definition src_file :: "Chunk list \<Rightarrow> File" where
  "src_file cs = \<lparr>to = Some (utf16 ''src/a.ts''), chunks = cs\<rparr>"

text \<open>Two hunks of 5 and 4 lines; five hunks of 1, 40, 120, 10 and 10 lines.\<close>

definition file_5_4 :: File where
  "file_5_4 = src_file [hunk 1 5, hunk 20 4]"

definition file_five :: File where
  "file_five = src_file [hunk 1 1, hunk 10 40, hunk 100 120, hunk 300 10, hunk 400 10]"

text \<open>Four hunks of 10, 2, 10 and 10 lines; two hunks of 60 lines each.\<close>

definition file_10_2_10_10 :: File where
  "file_10_2_10_10 = src_file [hunk 1 10, hunk 50 2, hunk 100 10, hunk 200 10]"

definition file_60_60 :: File where
  "file_60_60 = src_file [hunk 1 60, hunk 100 60]"

text \<open>
  Replies of the completion service: a suggestion with its two fields, a text of 27 code
  units, and a runtime whose conversions are right on strings of decimal digits (the
  samples convert no other string, and no array or object).
\<close>

definition suggestion :: "json \<Rightarrow> json \<Rightarrow> json" where
  "suggestion l c = JObj [(utf16 ''lineNumber'', l), (utf16 ''reviewComment'', c)]"

definition long_text :: jsstring where
  "long_text = utf16 ''This loop never terminates.''"

definition digits_runtime :: runtime where
  "digits_runtime =
     \<lparr>StringToNumber = (\<lambda>s. if s \<noteq> [] \<and> list_all is_digit s
                              then Fin (of_int (digits_value s)) else NaN),
      ObjectToString = (\<lambda>v. Inr (utf16 ''[object Object]''))\<rparr>"




text \<open>
  A new file of three lines, and two suggestions for it: line 1.5 and line 500.
\<close>

definition file_new_3 :: File where
  "file_new_3 = src_file [hunk 1 3]"

definition off_file_reply :: "json list" where
  "off_file_reply =
     [suggestion (JNum (Fin (3 / 2))) (JStr long_text),
      suggestion (JNum (Fin 500)) (JStr long_text)]"

text \<open>
  A run on given files: the diff is found, nothing is excluded, the review call
  succeeds.
\<close>

definition pr0 :: PRDetails where
  "pr0 = \<lparr>owner = utf16 ''acme'', repo = utf16 ''shop'', pull_number = 7,
          title = utf16 ''Fix cart'', description = utf16 ''Totals''\<rparr>"

definition world_of :: "File list \<Rightarrow> world" where
  "world_of files =
     \<lparr>pr_details = Inr pr0,
      event_action = Inr (Some (utf16 ''opened'')),
      compare_commits = Inl RequestError,
      get_diff = Inr (Some (utf16 ''diff --git'')),
      parseDiff = (\<lambda>d. files),
      exclude_patterns = [[]],
      minimatch = (\<lambda>p pattern. False),
      create_review = (\<lambda>cs. Inr ())\<rparr>"

definition env_of :: "jsstring \<Rightarrow> (nat \<Rightarrow> prompt \<Rightarrow> completion) \<Rightarrow> env" where
  "env_of m c = \<lparr>conversions = digits_runtime, max_comments_input = m, completions = c\<rparr>"

definition reply :: "json list \<Rightarrow> completion" where
  "reply xs = Parsed (JObj [(utf16 ''reviews'', JArr xs)])"

definition always :: "completion \<Rightarrow> nat \<Rightarrow> prompt \<Rightarrow> completion" where
  "always c n p = c"

text \<open>
  A service whose first reply has a suggestion without \<open>reviewComment\<close>, and one
  whose first reply is not JSON; every later reply is one good suggestion.
\<close>

definition no_comment_first :: "nat \<Rightarrow> prompt \<Rightarrow> completion" where
  "no_comment_first n p =
     (if n = 0 then reply [JObj [(utf16 ''lineNumber'', JNum (Fin 2))]]
      else reply [suggestion (JNum (Fin 2)) (JStr long_text)])"

definition malformed_first :: "nat \<Rightarrow> prompt \<Rightarrow> completion" where
  "malformed_first n p =
     (if n = 0 then Malformed else reply [suggestion (JNum (Fin 2)) (JStr long_text)])"

text \<open>
  Two and twelve good suggestions, for lines 1, 2 and so on, and the comment that a good
  suggestion for line \<open>q\<close> becomes.
\<close>

definition two_valid :: "json list" where
  "two_valid =
     [suggestion (JNum (Fin 1)) (JStr long_text), suggestion (JNum (Fin 2)) (JStr long_text)]"

definition twelve_valid :: "json list" where
  "twelve_valid = map (\<lambda>k. suggestion (JNum (Fin (of_nat k))) (JStr long_text)) [1..<13]"

definition note_at :: "rat \<Rightarrow> comment" where
  "note_at q = \<lparr>body = JStr long_text, path = utf16 ''src/a.ts'', line = Fin q\<rparr>"

section \<open>The loops review the units of the grouper\<close>

declare chunk_loop.simps [simp del] group_from.simps [simp del]

lemma hunk_changes_length: "length (changes (hunk first n)) = n"
  by (simp add: hunk_def)

text \<open>
  The loop over the chunks of a file reviews, in order, exactly the units that
  \<open>group_from\<close> lists, and the loop over the files reviews for each file the units of
  \<open>file_units\<close>. What holds of these units holds of what the run sends for review.
\<close>

lemma chunk_loop_units:
  "chunk_loop E prDetails f i st =
     review_all E prDetails f (map snd (group_from (chunks f) i)) st"
proof (induction E prDetails f i st rule: chunk_loop.induct)
  case (1 E prDetails f i st)
  let ?c = "chunks f ! i"
  let ?n = "chunks f ! (i + 1)"
  show ?case
  proof (cases "i < length (chunks f)")
    case False
    then show ?thesis
      by (subst chunk_loop.simps, subst group_from.simps) simp
  next
    case inside: True
    consider (small) "length (changes ?c) < 3"
      | (big) "\<not> length (changes ?c) < 3" "length (changes ?c) > maxChangesPerChunk"
      | (merge) "\<not> length (changes ?c) < 3" "\<not> length (changes ?c) > maxChangesPerChunk"
          "i < length (chunks f) - 1 \<and> length (changes ?c @ changes ?n) \<le> maxChangesPerChunk"
      | (last) "\<not> length (changes ?c) < 3" "\<not> length (changes ?c) > maxChangesPerChunk"
          "\<not> i < length (chunks f) - 1"
      | (over) "\<not> length (changes ?c) < 3" "\<not> length (changes ?c) > maxChangesPerChunk"
          "i < length (chunks f) - 1" "\<not> length (changes ?c @ changes ?n) \<le> maxChangesPerChunk"
      by blast
    then show ?thesis
    proof cases
      case small
      with inside "1.IH"(1) show ?thesis
        by (subst chunk_loop.simps, subst group_from.simps) (simp add: Let_def)
    next
      case big
      with inside "1.IH"(2) show ?thesis
        by (subst chunk_loop.simps, subst group_from.simps)
           (simp add: Let_def split: sum.splits)
    next
      case merge
      with inside "1.IH"(3) show ?thesis
        by (subst chunk_loop.simps, subst group_from.simps)
           (simp add: Let_def split: sum.splits)
    next
      case last
      with inside "1.IH"(4) show ?thesis
        by (subst chunk_loop.simps, subst group_from.simps)
           (simp add: Let_def split: sum.splits)
    next
      case over
      with inside "1.IH"(4) show ?thesis
        by (subst chunk_loop.simps, subst group_from.simps)
           (simp add: Let_def split: sum.splits)
    qed
  qed
qed

lemma file_loop_units:
  "file_loop E prDetails (file # rest) st =
     (case review_all E prDetails file (map snd (file_units file)) st of
        Inl e \<Rightarrow> Inl e
      | Inr st' \<Rightarrow> file_loop E prDetails rest st')"
  by (simp add: file_units_def chunk_loop_units split: sum.splits)

section \<open>Properties of the chunk grouper\<close>

lemma group_from_ge: "(idx, u) \<in> set (group_from cs i) \<Longrightarrow> k \<in> set idx \<Longrightarrow> i \<le> k"
proof (induction cs i rule: group_from.induct)
  case (1 cs i)
  from "1.prems" show ?case
    apply (subst (asm) group_from.simps)
    using "1.IH"
    by (fastforce simp: Let_def split: if_splits)
qed

lemma group_from_shape:
  "(idx, u) \<in> set (group_from cs i) \<Longrightarrow>
     (\<exists>k. k < length cs \<and> idx = [k] \<and> u = cs ! k \<and> 3 \<le> length (changes (cs ! k))) \<or>
     (\<exists>k. k + 1 < length cs \<and> idx = [k, k + 1] \<and> u = combine (cs ! k) (cs ! (k + 1)) \<and>
          3 \<le> length (changes (cs ! k)) \<and>
          length (changes (cs ! k)) + length (changes (cs ! (k + 1))) \<le> maxChangesPerChunk)"
proof (induction cs i rule: group_from.induct)
  case (1 cs i)
  from "1.prems" show ?case
    apply (subst (asm) group_from.simps)
    using "1.IH"
    by (auto simp: Let_def split: if_splits)
qed

lemma group_from_sorted: "sorted_wrt (<) (concat (map fst (group_from cs i)))"
proof (induction cs i rule: group_from.induct)
  case (1 cs i)
  have ge: "\<And>j k. k \<in> set (concat (map fst (group_from cs j))) \<Longrightarrow> j \<le> k"
    using group_from_ge by fastforce
  show ?case
    apply (subst group_from.simps)
    using "1.IH" ge
    by (fastforce simp: Let_def sorted_wrt_append)
qed


lemma to_src_file: "to (src_file cs) \<noteq> Some (utf16 ''/dev/null'')"
  by (simp add: src_file_def utf16_def)

lemmas sample_eval = group_from.simps file_units_def src_file_def hunk_changes_length
  maxChangesPerChunk_def Let_def utf16_def

text \<open>
  C5: a file with at most three hunks that is not a deleted file gives exactly one unit,
  made of all its hunks; the changed lines of the unit are the changed lines of the hunks,
  concatenated in order, whatever their number. The loop over the files reviews this
  unit once and goes on to the next file.
\<close>

theorem whole_file_one_unit:
  assumes "length (chunks f) \<le> 3" and "to f \<noteq> Some (utf16 ''/dev/null'')"
  shows "file_units f = [([0..<length (chunks f)], whole_file f)] \<and>
         changes (whole_file f) = concat (map changes (chunks f)) \<and>
         file_loop E prDetails (f # rest) st =
           (case review E prDetails f (whole_file f) st of
              Inl e \<Rightarrow> Inl e
            | Inr st' \<Rightarrow> file_loop E prDetails rest st')"
  using assms by (simp add: file_units_def whole_file_def)

theorem whole_file_one_unit_witness:
  "length (chunks file_5_4) \<le> 3 \<and> to file_5_4 \<noteq> Some (utf16 ''/dev/null'') \<and>
   file_units file_5_4 = [([0, 1], whole_file file_5_4)] \<and>
   length (changes (whole_file file_5_4)) = 9"
proof -
  have a: "length (chunks file_5_4) \<le> 3"
    by (simp add: file_5_4_def src_file_def)
  have b: "to file_5_4 \<noteq> Some (utf16 ''/dev/null'')"
    by (simp add: file_5_4_def to_src_file)
  have c: "[0..<length (chunks file_5_4)] = [0, 1]"
    by (simp add: file_5_4_def src_file_def upt_rec)
  have d: "length (concat (map changes (chunks file_5_4))) = 9"
    by (simp add: file_5_4_def src_file_def hunk_changes_length)
  from whole_file_one_unit [OF a b] a b c d show ?thesis
    by simp
qed

text \<open>
  C8: in a file with more than three hunks every unit is either one hunk, or a hunk
  merged with the hunk right after it: its changed lines are the changed lines of the
  first followed by those of the second, its content is the two contents joined by a
  line break, and the two together have at most \<open>maxChangesPerChunk\<close> changed lines.
  The hunk indices of the units, read in order, increase strictly: after a merge the
  pass goes on behind both hunks, no hunk is used twice and no unit reaches over a hunk.
\<close>

theorem merging_greedy_adjacent:
  assumes "3 < length (chunks f)"
  shows "(\<forall>(idx, u) \<in> set (file_units f).
            (\<exists>k. k < length (chunks f) \<and> idx = [k] \<and> u = chunks f ! k) \<or>
            (\<exists>k. k + 1 < length (chunks f) \<and> idx = [k, k + 1] \<and>
                 changes u = changes (chunks f ! k) @ changes (chunks f ! (k + 1)) \<and>
                 content u = content (chunks f ! k) @ [0xA] @ content (chunks f ! (k + 1)) \<and>
                 length (changes (chunks f ! k)) + length (changes (chunks f ! (k + 1)))
                   \<le> maxChangesPerChunk)) \<and>
         sorted_wrt (<) (concat (map fst (file_units f)))"
proof (cases "to f = Some (utf16 ''/dev/null'')")
  case True
  then show ?thesis by (simp add: file_units_def)
next
  case False
  with assms have eq: "file_units f = group_from (chunks f) 0"
    by (simp add: file_units_def)
  have shape: "(\<exists>k. k < length (chunks f) \<and> idx = [k] \<and> u = chunks f ! k) \<or>
            (\<exists>k. k + 1 < length (chunks f) \<and> idx = [k, k + 1] \<and>
                 changes u = changes (chunks f ! k) @ changes (chunks f ! (k + 1)) \<and>
                 content u = content (chunks f ! k) @ [0xA] @ content (chunks f ! (k + 1)) \<and>
                 length (changes (chunks f ! k)) + length (changes (chunks f ! (k + 1)))
                   \<le> maxChangesPerChunk)"
    if "(idx, u) \<in> set (group_from (chunks f) 0)" for idx u
    using group_from_shape [OF that] by (auto simp: combine_def)
  from shape group_from_sorted [of "chunks f" 0] show ?thesis
    unfolding eq by auto
qed

theorem merging_greedy_adjacent_witness:
  "3 < length (chunks file_five) \<and>
   map fst (file_units file_five) = [[1], [2], [3, 4]] \<and>
   map snd (file_units file_five) =
     [hunk 10 40, hunk 100 120,
      \<lparr>content = content (hunk 300 10) @ [0xA] @ content (hunk 400 10),
       changes = changes (hunk 300 10) @ changes (hunk 400 10)\<rparr>] \<and>
   length (changes (hunk 300 10)) + length (changes (hunk 400 10)) = 20 \<and>
   sorted_wrt (<) (concat (map fst (file_units file_five)))"
proof -
  have a: "3 < length (chunks file_five)"
    by (simp add: file_five_def src_file_def)
  have b: "file_units file_five =
     [([1], hunk 10 40), ([2], hunk 100 120),
      ([3, 4], \<lparr>content = content (hunk 300 10) @ [0xA] @ content (hunk 400 10),
                changes = changes (hunk 300 10) @ changes (hunk 400 10)\<rparr>)]"
    by (simp add: file_five_def sample_eval combine_def)
  from merging_greedy_adjacent [OF a] a b show ?thesis
    by (simp add: hunk_changes_length)
qed

text \<open>
  C1: the grouper on a file with four hunks of 10, 2, 10 and 10 changed lines. The second
  hunk has fewer than three changed lines, and the first unit is the first hunk merged
  with it: its changed lines are in the unit.
\<close>

theorem small_hunk_merged:
  "3 < length (chunks file_10_2_10_10) \<and>
   length (changes (chunks file_10_2_10_10 ! 1)) = 2 \<and>
   file_units file_10_2_10_10 =
     [([0, 1], combine (hunk 1 10) (hunk 50 2)), ([2, 3], combine (hunk 100 10) (hunk 200 10))] \<and>
   changes (combine (hunk 1 10) (hunk 50 2)) = changes (hunk 1 10) @ changes (hunk 50 2)"
  by (simp add: file_10_2_10_10_def sample_eval combine_def)

text \<open>
  C2, as stated, fails on the whole-file path: a file with two hunks of 60 changed lines
  gives one unit made of both hunks, with 120 changed lines.
\<close>

theorem whole_file_over_ceiling:
  "length (chunks file_60_60) = 2 \<and>
   length (changes (chunks file_60_60 ! 0)) = 60 \<and>
   length (changes (chunks file_60_60 ! 1)) = 60 \<and>
   file_units file_60_60 = [([0, 1], whole_file file_60_60)] \<and>
   length (changes (whole_file file_60_60)) = 120 \<and>
   \<not> 120 \<le> maxChangesPerChunk"
  by (simp add: file_60_60_def sample_eval whole_file_def upt_rec)

text \<open>
  C2, amended: in a file with more than three hunks every unit has at most
  \<open>maxChangesPerChunk\<close> changed lines, unless it is a single hunk that has more on its
  own. In a file with at most three hunks the one unit has as many changed lines as the
  whole file.
\<close>

theorem unit_size_bound:
  "(3 < length (chunks f) \<longrightarrow>
      (\<forall>(idx, u) \<in> set (file_units f).
         length (changes u) \<le> maxChangesPerChunk \<or>
         (\<exists>k. k < length (chunks f) \<and> idx = [k] \<and> u = chunks f ! k \<and>
              maxChangesPerChunk < length (changes u)))) \<and>
   (length (chunks f) \<le> 3 \<longrightarrow>
      (\<forall>(idx, u) \<in> set (file_units f).
         length (changes u) = sum_list (map (\<lambda>c. length (changes c)) (chunks f))))"
proof (intro conjI impI)
  assume big: "3 < length (chunks f)"
  show "\<forall>(idx, u) \<in> set (file_units f).
         length (changes u) \<le> maxChangesPerChunk \<or>
         (\<exists>k. k < length (chunks f) \<and> idx = [k] \<and> u = chunks f ! k \<and>
              maxChangesPerChunk < length (changes u))"
  proof (cases "to f = Some (utf16 ''/dev/null'')")
    case True
    then show ?thesis by (simp add: file_units_def)
  next
    case False
    with big have eq: "file_units f = group_from (chunks f) 0"
      by (simp add: file_units_def)
    show ?thesis
      unfolding eq using group_from_shape [of _ _ "chunks f" 0]
      by (fastforce simp: combine_def)
  qed
next
  assume "length (chunks f) \<le> 3"
  then show "\<forall>(idx, u) \<in> set (file_units f).
         length (changes u) = sum_list (map (\<lambda>c. length (changes c)) (chunks f))"
    by (simp add: file_units_def whole_file_def length_concat comp_def)
qed

theorem unit_size_bound_witness:
  "3 < length (chunks file_five) \<and>
   map (\<lambda>(idx, u). length (changes u)) (file_units file_five) = [40, 120, 20] \<and>
   length (chunks file_5_4) \<le> 3 \<and>
   map (\<lambda>(idx, u). length (changes u)) (file_units file_5_4) = [9]"
proof -
  have a: "3 < length (chunks file_five)"
    by (simp add: file_five_def src_file_def)
  have b: "map (\<lambda>(idx, u). length (changes u)) (file_units file_five) = [40, 120, 20]"
    by (simp add: file_five_def sample_eval combine_def)
  have c: "length (chunks file_5_4) \<le> 3"
    by (simp add: file_5_4_def src_file_def)
  have d: "map (\<lambda>(idx, u). length (changes u)) (file_units file_5_4) = [9]"
    by (simp add: file_5_4_def sample_eval whole_file_def)
  from unit_size_bound [of file_five] unit_size_bound [of file_5_4] a b c d show ?thesis
    by simp
qed


section \<open>Properties of the comment assembler\<close>

lemma ebind_Inr: "ebind m g = Inr y \<longleftrightarrow> (\<exists>x. m = Inr x \<and> g x = Inr y)"
  by (cases m) auto

lemma positive_if_passed: "\<not> isNaN l \<Longrightarrow> \<not> js_le l (Fin 0) \<Longrightarrow> js_less (Fin 0) l"
  by (simp add: js_le_def isNaN_def)

lemma long_enough:
  assumes "get_length (Some (JStr s)) = Inr len" and "ToNumber rt len = Inr n"
    and "\<not> js_less n (Fin 20)"
  shows "20 \<le> length s"
proof -
  from assms(1,2) have "n = Fin (of_nat (length s))" by auto
  with assms(3) have "\<not> (of_nat (length s) :: rat) < 20" by simp
  then have "(20 :: rat) \<le> of_nat (length s)" by simp
  then show ?thesis by (metis of_nat_le_iff of_nat_numeral)
qed

lemma comment_of_Inr:
  assumes "comment_of rt f x = Inr ys"
  shows "ys = [] \<or>
         (\<exists>c. ys = [c] \<and> to f = Some (path c) \<and> \<not> isNaN (line c) \<and> js_less (Fin 0) (line c) \<and>
              ebind (get_prop (Some x) (utf16 ''lineNumber'')) (ToNumber rt) = Inr (line c) \<and>
              get_prop (Some x) (utf16 ''reviewComment'') = Inr (Some (body c)) \<and>
              (\<forall>s. body c = JStr s \<longrightarrow> 20 \<le> length s))"
proof (cases "ys = []")
  case True
  then show ?thesis by simp
next
  case False
  with assms obtain p ln l rc len n b where
    p: "to f = Some p" and
    ln: "get_prop (Some x) (utf16 ''lineNumber'') = Inr ln" and
    l: "ToNumber rt ln = Inr l" and
    ok: "\<not> isNaN l" "\<not> js_le l (Fin 0)" and
    rc: "get_prop (Some x) (utf16 ''reviewComment'') = Inr rc" and
    len: "get_length rc = Inr len" and
    n: "ToNumber rt len = Inr n" and
    long: "\<not> js_less n (Fin 20)" and
    b: "rc = Some b" and
    ys: "ys = [\<lparr>body = b, path = p, line = l\<rparr>]"
    unfolding comment_of_def
    by (auto simp: ebind_Inr split: option.splits if_splits)
  have "\<forall>s. b = JStr s \<longrightarrow> 20 \<le> length s"
    using len n long b long_enough by blast
  with p ln l ok rc b ys show ?thesis
    by (simp add: positive_if_passed)
qed

lemma flatMap_Cons_Inr:
  "flatMap g (x # xs) = Inr cs \<longleftrightarrow>
     (\<exists>ys zs. g x = Inr ys \<and> flatMap g xs = Inr zs \<and> cs = ys @ zs)"
  by (cases "g x"; cases "flatMap g xs") auto

lemma flatMap_set:
  "flatMap g xs = Inr cs \<Longrightarrow> c \<in> set cs \<Longrightarrow> \<exists>x ys. x \<in> set xs \<and> g x = Inr ys \<and> c \<in> set ys"
proof (induction xs arbitrary: cs)
  case Nil
  then show ?case by simp
next
  case (Cons x xs)
  from Cons.prems(1) obtain ys zs where
    *: "g x = Inr ys" "flatMap g xs = Inr zs" "cs = ys @ zs"
    unfolding flatMap_Cons_Inr by blast
  from Cons.prems(2) *(3) consider "c \<in> set ys" | "c \<in> set zs" by auto
  then show ?case
  proof cases
    case 1
    with *(1) show ?thesis by auto
  next
    case 2
    from Cons.IH [OF *(2) 2] show ?thesis by auto
  qed
qed

lemma flatMap_order:
  assumes one: "\<And>x ys. g x = Inr ys \<Longrightarrow> ys = [] \<or> (\<exists>c. ys = [c])"
  shows "flatMap g xs = Inr cs \<Longrightarrow>
         list_all2 (\<lambda>c x. g x = Inr [c]) cs (filter (\<lambda>x. g x \<noteq> Inr []) xs)"
proof (induction xs arbitrary: cs)
  case Nil
  then show ?case by simp
next
  case (Cons x xs)
  from Cons.prems obtain ys zs where
    *: "g x = Inr ys" "flatMap g xs = Inr zs" "cs = ys @ zs"
    unfolding flatMap_Cons_Inr by blast
  note rest = Cons.IH [OF *(2)]
  from one [OF *(1)] show ?case
  proof
    assume "ys = []"
    with * rest show ?thesis by simp
  next
    assume "\<exists>c. ys = [c]"
    then obtain c where "ys = [c]" ..
    with * rest show ?thesis by simp
  qed
qed









text \<open>
  A suggestion with a good line number and no \<open>reviewComment\<close> makes the callback
  throw.
\<close>

lemma comment_of_without_comment:
  assumes "to f = Some p" and "p \<noteq> []"
    and "map_of kvs (utf16 ''lineNumber'') = Some l" and "ToNumber rt (Some l) = Inr n"
    and "\<not> isNaN n" and "\<not> js_le n (Fin 0)"
    and "map_of kvs (utf16 ''reviewComment'') = None"
  shows "comment_of rt f (JObj kvs) = Inl TypeError"
  using assms by (simp add: comment_of_def)

text \<open>
  A too short \<open>reviewComment\<close> that is an object whose conversion to a string throws
  makes the callback throw in its log line.
\<close>

lemma comment_of_log_throws:
  assumes "to f = Some p" and "p \<noteq> []"
    and "map_of kvs (utf16 ''lineNumber'') = Some l" and "ToNumber rt (Some l) = Inr n"
    and "\<not> isNaN n" and "\<not> js_le n (Fin 0)"
    and "map_of kvs (utf16 ''reviewComment'') = Some (JObj ps)"
    and "map_of ps (utf16 ''length'') = Some (JNum (Fin 5))"
    and "ObjectToString rt (JObj ps) = Inl TypeError"
  shows "comment_of rt f (JObj kvs) = Inl TypeError"
  using assms by (simp add: comment_of_def)

text \<open>
  On any reply, of the declared type or not: when \<open>createComment\<close> returns, every
  line number it returns is a number above 0, a body that is a text has at least 20 code
  units, and the comments are in order those of the suggestions that gave one.
\<close>

lemma createComment_raw:
  assumes run: "createComment rt f chunk (Some (JArr xs)) = Inr cs"
  shows "(\<forall>c \<in> set cs. \<not> isNaN (line c) \<and> js_less (Fin 0) (line c) \<and>
                     (\<forall>s. body c = JStr s \<longrightarrow> 20 \<le> length s)) \<and>
         list_all2 (\<lambda>c x. comment_of rt f x = Inr [c]) cs
                   (filter (\<lambda>x. comment_of rt f x \<noteq> Inr []) xs)"
proof -
  from run have fm: "flatMap (comment_of rt f) xs = Inr cs" by simp
  have valid: "\<not> isNaN (line c) \<and> js_less (Fin 0) (line c) \<and>
               (\<forall>s. body c = JStr s \<longrightarrow> 20 \<le> length s)"
    if c: "c \<in> set cs" for c
  proof -
    from flatMap_set [OF fm c] obtain x ys where
      "comment_of rt f x = Inr ys" "c \<in> set ys" by blast
    with comment_of_Inr [of rt f x ys] show ?thesis by auto
  qed
  have one: "ys = [] \<or> (\<exists>c. ys = [c])" if "comment_of rt f x = Inr ys" for x ys
    using comment_of_Inr [OF that] by blast
  have order: "list_all2 (\<lambda>c x. comment_of rt f x = Inr [c]) cs
                 (filter (\<lambda>x. comment_of rt f x \<noteq> Inr []) xs)"
    using flatMap_order [of "comment_of rt f" xs cs, OF one fm] .
  from valid order show ?thesis by simp
qed

lemmas reply_eval = comment_of_def suggestion_def long_text_def utf16_def src_file_def
  digits_runtime_def isNaN_def js_le_def is_digit_def digits_value_def





text \<open>
  C4: the assembler on a new file of three lines (lines 1 to 3), with one suggestion for
  line 1.5 and one for line 500. Both become comments: the line number is only tested
  for being a number above 0.
\<close>

theorem off_file_lines_emitted:
  "createComment digits_runtime file_new_3 (whole_file file_new_3) (Some (JArr off_file_reply)) =
     Inr [note_at (3 / 2), note_at 500] \<and>
   (3 / 2 :: rat) \<notin> \<int> \<and>
   map shown_line (changes (whole_file file_new_3)) = [Some 1, Some 2, Some 3]"
  by (simp add: off_file_reply_def file_new_3_def reply_eval note_at_def whole_file_def hunk_def upt_rec)

section \<open>Failures of the completion step\<close>

text \<open>
  A request that throws, a reply that is not JSON, a reply without content and a reply
  without \<open>reviews\<close> give a falsy result, and the unit then adds no comment while
  the run goes on.
\<close>

lemma getAIResponse_caught:
  "\<not> truthy (getAIResponse RequestFails)"
  "\<not> truthy (getAIResponse Malformed)"
  "\<not> truthy (getAIResponse NoContent)"
  "\<not> truthy (getAIResponse (Parsed JNull))"
  "map_of kvs (utf16 ''reviews'') = None \<Longrightarrow> \<not> truthy (getAIResponse (Parsed (JObj kvs)))"
  by simp_all

lemma review_no_suggestions:
  assumes "\<not> truthy (getAIResponse (completions E (calls st) (createPrompt f u pr)))"
  shows "review E pr f u st = Inr (st\<lparr>calls := Suc (calls st)\<rparr>)"
  using assms by (simp add: review_def)

lemma file_5_4_path: "(to file_5_4 = Some (utf16 ''/dev/null'')) = False" "length (chunks file_5_4) \<le> 3"
  by (simp_all add: file_5_4_def src_file_def utf16_def)

lemma file_new_3_path: "(to file_new_3 = Some (utf16 ''/dev/null'')) = False" "length (chunks file_new_3) \<le> 3"
  by (simp_all add: file_new_3_def src_file_def utf16_def)

lemma reviews_of_reply: "getAIResponse (reply xs) = Some (JArr xs)"
  by (simp add: reply_def)

lemma parse_samples:
  "parseInt10 (utf16 ''10'') = Fin 10"
  "parseInt10 (utf16 ''-1'') = Fin (- 1)"
  "parseInt10 (utf16 ''abc'') = NaN"
  "parseInt10 (utf16 ''12abc'') = Fin 12"
  by (simp_all add: parseInt10_def utf16_def is_ws_def is_digit_def digits_value_def)

lemma trunc_of_int: "trunc (of_int k) = k"
  by (simp add: trunc_def)

lemma trunc_minus_one: "trunc (- 1) = - 1"
  using trunc_of_int [of "- 1"] by simp

lemma acquire_world_of: "acquire (world_of files) = Inr (Some (pr0, files))"
  by (simp add: acquire_def world_of_def utf16_def)

lemma create_review_world_of: "create_review (world_of files) cs = Inr ()"
  by (simp add: world_of_def)

lemma max_default: "MAX_COMMENTS_PER_PR (env_of [] c) = Fin 10"
  by (simp add: MAX_COMMENTS_PER_PR_def env_of_def parse_samples)

lemma malformed_first_continues:
  "main (world_of [file_new_3, file_5_4]) (env_of [] malformed_first) =
     \<lparr>review_calls = [[note_at 2]], exit_code = 0\<rparr>"
proof -
  have one: "createComment digits_runtime file_5_4 c
      (Some (JArr [suggestion (JNum (Fin 2)) (JStr long_text)])) = Inr [note_at 2]" for c
    by (simp add: file_5_4_def reply_eval note_at_def)
  have a: "accumulated (env_of [] malformed_first) [file_new_3, file_5_4] pr0 = Inr [note_at 2]"
    by (simp add: accumulated_def review_def env_of_def file_new_3_path file_5_4_path
          malformed_first_def reviews_of_reply one del: createComment.simps)
  have t: "trunc 10 = 10"
    using trunc_of_int [of 10] by simp
  show ?thesis
    by (simp add: main_def acquire_world_of analyzeCode_def a max_default t create_review_world_of)
qed

lemma no_comment_first_0:
  "getAIResponse (no_comment_first 0 p) = Some (JArr [JObj [(utf16 ''lineNumber'', JNum (Fin 2))]])"
  by (simp add: no_comment_first_def reviews_of_reply)

lemma no_comment_throws:
  "createComment digits_runtime file_new_3 c (Some (JArr [JObj [(utf16 ''lineNumber'', JNum (Fin 2))]])) =
     Inl TypeError"
  by (simp add: file_new_3_def reply_eval)

text \<open>
  C3: a run on two files in which the first reply of the service is
  \<open>{"reviews": [{"lineNumber": 2}]}\<close>, a suggestion without \<open>reviewComment\<close>.
  \<open>getAIResponse\<close> returns the array, \<open>createComment\<close> throws a TypeError on
  \<open>.length\<close> of \<open>undefined\<close>, nothing catches it: the second file is not reviewed,
  no review is created and the process exits with code 1.
\<close>

theorem missing_comment_aborts:
  "getAIResponse (no_comment_first 0 (createPrompt file_new_3 (whole_file file_new_3) pr0)) =
     Some (JArr [JObj [(utf16 ''lineNumber'', JNum (Fin 2))]]) \<and>
   createComment digits_runtime file_new_3 (whole_file file_new_3)
     (Some (JArr [JObj [(utf16 ''lineNumber'', JNum (Fin 2))]])) = Inl TypeError \<and>
   accumulated (env_of [] no_comment_first) [file_new_3, file_5_4] pr0 = Inl TypeError \<and>
   main (world_of [file_new_3, file_5_4]) (env_of [] no_comment_first) =
     \<lparr>review_calls = [], exit_code = 1\<rparr>"
proof -
  have a: "accumulated (env_of [] no_comment_first) [file_new_3, file_5_4] pr0 = Inl TypeError"
    by (simp add: accumulated_def review_def env_of_def file_new_3_path no_comment_first_0
          no_comment_throws del: createComment.simps)
  have m: "main (world_of [file_new_3, file_5_4]) (env_of [] no_comment_first) =
     \<lparr>review_calls = [], exit_code = 1\<rparr>"
    by (simp add: main_def acquire_world_of analyzeCode_def a)
  from a m no_comment_first_0 no_comment_throws show ?thesis by simp
qed

section \<open>The final cut and the publication\<close>

lemma slice0_prefix: "prefix (slice0 xs m) xs"
  by (cases m) (simp_all add: take_is_prefix)

lemma slice0_Nil: "slice0 [] m = []"
  by (cases m) simp_all

lemma slice0_NaN_empty: "slice0 xs NaN = []"
  by simp

lemma slice0_length:
  assumes "0 \<le> q"
  shows "of_nat (length (slice0 xs (Fin q))) \<le> q"
proof -
  from assms have t: "trunc q = \<lfloor>q\<rfloor>" and nonneg: "0 \<le> \<lfloor>q\<rfloor>"
    by (simp_all add: trunc_def)
  then have "length (slice0 xs (Fin q)) \<le> nat \<lfloor>q\<rfloor>"
    by simp
  then have "(of_nat (length (slice0 xs (Fin q))) :: rat) \<le> of_nat (nat \<lfloor>q\<rfloor>)"
    by (simp only: of_nat_le_iff)
  also from nonneg have "(of_nat (nat \<lfloor>q\<rfloor>) :: rat) = of_int \<lfloor>q\<rfloor>"
    by simp
  also have "\<dots> \<le> q"
    by (rule of_int_floor_le)
  finally show ?thesis .
qed

lemma analyzeCode_Inr:
  "analyzeCode E fd pr = Inr cs \<longleftrightarrow>
     (\<exists>acc. accumulated E fd pr = Inr acc \<and> cs = slice0 acc (MAX_COMMENTS_PER_PR E))"
  by (cases "accumulated E fd pr") (auto simp: analyzeCode_def)

lemma main_review_calls:
  assumes "cs \<in> set (review_calls (main W E))"
  shows "cs \<noteq> [] \<and> (\<exists>pr fd. acquire W = Inr (Some (pr, fd)) \<and> analyzeCode E fd pr = Inr cs)"
proof (cases "acquire W")
  case (Inl e)
  with assms show ?thesis by (simp add: main_def)
next
  case (Inr got)
  show ?thesis
  proof (cases got)
    case None
    with Inr assms show ?thesis by (simp add: main_def)
  next
    case (Some v)
    obtain pr fd where v: "v = (pr, fd)" by (cases v)
    show ?thesis
    proof (cases "analyzeCode E fd pr")
      case (Inl e)
      with Inr Some v assms show ?thesis by (simp add: main_def)
    next
      case res: (Inr ds)
      with Inr Some v assms show ?thesis
        by (cases "create_review W ds") (auto simp: main_def split: if_splits)
    qed
  qed
qed

lemma main_review_calls_length: "length (review_calls (main W E)) \<le> 1"
  by (auto simp: main_def split: sum.splits option.splits prod.splits)

lemma main_nothing_to_publish:
  assumes "acquire W = Inr (Some (pr, fd))" and "analyzeCode E fd pr = Inr []"
  shows "main W E = \<lparr>review_calls = [], exit_code = 0\<rparr>"
  using assms by (simp add: main_def)

lemma two_valid_comments:
  "createComment digits_runtime file_5_4 c (Some (JArr two_valid)) = Inr [note_at 1, note_at 2]"
  by (simp add: two_valid_def file_5_4_def reply_eval note_at_def)

lemma accumulated_two:
  "accumulated (env_of m (always (reply two_valid))) [file_5_4] pr0 = Inr [note_at 1, note_at 2]"
  by (simp add: accumulated_def review_def always_def env_of_def file_5_4_path reviews_of_reply
        two_valid_comments del: createComment.simps)

lemma max_abc: "MAX_COMMENTS_PER_PR (env_of (utf16 ''abc'') c) = NaN"
  by (simp add: MAX_COMMENTS_PER_PR_def env_of_def parse_samples) (simp add: utf16_def)

lemma twelve_comments:
  "createComment digits_runtime file_5_4 c (Some (JArr twelve_valid)) = Inr (map note_at [1, 2, 3, 4, 5, 6, 7, 8, 9, 10, 11, 12])"
  by (simp add: twelve_valid_def file_5_4_def reply_eval note_at_def upt_rec)

lemma accumulated_twelve:
  "accumulated (env_of m (always (reply twelve_valid))) [file_5_4] pr0 =
     Inr (map note_at [1, 2, 3, 4, 5, 6, 7, 8, 9, 10, 11, 12])"
  by (simp add: accumulated_def review_def always_def env_of_def file_5_4_path reviews_of_reply
        twelve_comments del: createComment.simps)

lemma accumulated_none:
  "accumulated (env_of m (always (reply []))) [file_5_4] pr0 = Inr []"
  by (simp add: accumulated_def review_def always_def env_of_def file_5_4_path reviews_of_reply)

text \<open>
  C7, as stated, fails for a negative maximum: with the input \<open>MAX_COMMENTS_PER_PR\<close>
  set to \<open>-1\<close> and two comments generated, \<open>slice(0, -1)\<close> keeps the first one, and
  one comment is published, which is more than \<open>-1\<close>.
\<close>

theorem negative_maximum:
  "MAX_COMMENTS_PER_PR (env_of (utf16 ''-1'') (always (reply two_valid))) = Fin (- 1) \<and>
   accumulated (env_of (utf16 ''-1'') (always (reply two_valid))) [file_5_4] pr0 =
     Inr [note_at 1, note_at 2] \<and>
   analyzeCode (env_of (utf16 ''-1'') (always (reply two_valid))) [file_5_4] pr0 = Inr [note_at 1] \<and>
   review_calls (main (world_of [file_5_4]) (env_of (utf16 ''-1'') (always (reply two_valid)))) =
     [[note_at 1]] \<and>
   \<not> js_le (Fin (of_nat (length [note_at 1]))) (Fin (- 1))"
proof -
  let ?E = "env_of (utf16 ''-1'') (always (reply two_valid))"
  have m: "MAX_COMMENTS_PER_PR ?E = Fin (- 1)"
    by (simp add: MAX_COMMENTS_PER_PR_def env_of_def parse_samples) (simp add: utf16_def)
  have a: "analyzeCode ?E [file_5_4] pr0 = Inr [note_at 1]"
    by (simp add: analyzeCode_def accumulated_two m trunc_minus_one)
  have w: "acquire (world_of [file_5_4]) = Inr (Some (pr0, [file_5_4]))"
    by (simp add: acquire_def world_of_def utf16_def)
  have r: "review_calls (main (world_of [file_5_4]) ?E) = [[note_at 1]]"
    by (simp add: main_def w a) (simp add: world_of_def)
  from m a r accumulated_two [of "utf16 ''-1''"] show ?thesis
    by (simp add: js_le_def isNaN_def)
qed

text \<open>
  C7, amended: the comments that \<open>analyzeCode\<close> returns, and so the comments of the
  one review that a run may create, are a prefix of the comments accumulated over all
  files, in the order in which they were generated; and whenever the configured maximum
  is a number that is not negative, there are at most that many.
\<close>

theorem published_prefix:
  "(accumulated E fd pr = Inr acc \<longrightarrow>
      (\<exists>cs. analyzeCode E fd pr = Inr cs \<and> prefix cs acc \<and>
            (\<forall>q. MAX_COMMENTS_PER_PR E = Fin q \<and> 0 \<le> q \<longrightarrow> of_nat (length cs) \<le> q))) \<and>
   (\<forall>cs \<in> set (review_calls (main W E)).
      \<exists>pr fd acc. acquire W = Inr (Some (pr, fd)) \<and> accumulated E fd pr = Inr acc \<and>
         prefix cs acc \<and>
         (\<forall>q. MAX_COMMENTS_PER_PR E = Fin q \<and> 0 \<le> q \<longrightarrow> of_nat (length cs) \<le> q)) \<and>
   length (review_calls (main W E)) \<le> 1"
proof -
  have cut: "prefix (slice0 xs (MAX_COMMENTS_PER_PR E)) xs \<and>
             (\<forall>q. MAX_COMMENTS_PER_PR E = Fin q \<and> 0 \<le> q \<longrightarrow>
                  of_nat (length (slice0 xs (MAX_COMMENTS_PER_PR E))) \<le> q)" for xs :: "comment list"
    using slice0_prefix slice0_length by metis
  have first: "\<exists>cs. analyzeCode E fd pr = Inr cs \<and> prefix cs acc \<and>
            (\<forall>q. MAX_COMMENTS_PER_PR E = Fin q \<and> 0 \<le> q \<longrightarrow> of_nat (length cs) \<le> q)"
    if "accumulated E fd pr = Inr acc"
    using that cut [of acc] by (simp add: analyzeCode_Inr)
  have second: "\<exists>pr fd acc. acquire W = Inr (Some (pr, fd)) \<and> accumulated E fd pr = Inr acc \<and>
         prefix cs acc \<and>
         (\<forall>q. MAX_COMMENTS_PER_PR E = Fin q \<and> 0 \<le> q \<longrightarrow> of_nat (length cs) \<le> q)"
    if "cs \<in> set (review_calls (main W E))" for cs
  proof -
    from main_review_calls [OF that] obtain pr fd where
      got: "acquire W = Inr (Some (pr, fd))" and res: "analyzeCode E fd pr = Inr cs"
      by blast
    from res obtain acc where
      acc: "accumulated E fd pr = Inr acc" and cs: "cs = slice0 acc (MAX_COMMENTS_PER_PR E)"
      unfolding analyzeCode_Inr by blast
    from got acc cs cut [of acc] show ?thesis by blast
  qed
  from first second main_review_calls_length show ?thesis by blast
qed

theorem published_prefix_witness:
  "MAX_COMMENTS_PER_PR (env_of [] (always (reply twelve_valid))) = Fin 10 \<and>
   accumulated (env_of [] (always (reply twelve_valid))) [file_5_4] pr0 =
     Inr (map note_at [1, 2, 3, 4, 5, 6, 7, 8, 9, 10, 11, 12]) \<and>
   review_calls (main (world_of [file_5_4]) (env_of [] (always (reply twelve_valid)))) =
     [map note_at [1, 2, 3, 4, 5, 6, 7, 8, 9, 10]] \<and>
   prefix (map note_at [1, 2, 3, 4, 5, 6, 7, 8, 9, 10])
          (map note_at [1, 2, 3, 4, 5, 6, 7, 8, 9, 10, 11, 12])"
proof -
  let ?E = "env_of [] (always (reply twelve_valid))"
  have m: "MAX_COMMENTS_PER_PR ?E = Fin 10"
    by (rule max_default)
  have t: "trunc 10 = 10"
    using trunc_of_int [of 10] by simp
  have a: "analyzeCode ?E [file_5_4] pr0 = Inr (map note_at [1, 2, 3, 4, 5, 6, 7, 8, 9, 10])"
    by (simp add: analyzeCode_def accumulated_twelve m t)
  have r: "review_calls (main (world_of [file_5_4]) ?E) =
     [map note_at [1, 2, 3, 4, 5, 6, 7, 8, 9, 10]]"
    by (simp add: main_def acquire_world_of a create_review_world_of)
  from published_prefix [of ?E "[file_5_4]" pr0 "map note_at [1, 2, 3, 4, 5, 6, 7, 8, 9, 10, 11, 12]"
      "world_of [file_5_4]"] m accumulated_twelve [of "[]"] a r
  show ?thesis by simp
qed

text \<open>
  C9: when the diff was found and the comments accumulated over all files are none, no
  review is created and the run ends with exit code 0. Every review that a run creates
  carries at least one comment, out of a sequence of accumulated comments that is not
  empty.
\<close>

theorem no_review_without_comments:
  "(acquire W = Inr (Some (pr, fd)) \<and> accumulated E fd pr = Inr [] \<longrightarrow>
      main W E = \<lparr>review_calls = [], exit_code = 0\<rparr>) \<and>
   (\<forall>cs \<in> set (review_calls (main W E)).
      cs \<noteq> [] \<and>
      (\<exists>pr fd acc. acquire W = Inr (Some (pr, fd)) \<and> accumulated E fd pr = Inr acc \<and> acc \<noteq> []))"
proof -
  have first: "main W E = \<lparr>review_calls = [], exit_code = 0\<rparr>"
    if "acquire W = Inr (Some (pr, fd))" and "accumulated E fd pr = Inr []"
    using that by (intro main_nothing_to_publish [of W pr fd]) (simp_all add: analyzeCode_def slice0_Nil)
  have second: "cs \<noteq> [] \<and>
      (\<exists>pr fd acc. acquire W = Inr (Some (pr, fd)) \<and> accumulated E fd pr = Inr acc \<and> acc \<noteq> [])"
    if "cs \<in> set (review_calls (main W E))" for cs
  proof -
    from main_review_calls [OF that] obtain pr fd where
      ne: "cs \<noteq> []" and got: "acquire W = Inr (Some (pr, fd))"
      and res: "analyzeCode E fd pr = Inr cs"
      by blast
    from res obtain acc where
      acc: "accumulated E fd pr = Inr acc" and cs: "cs = slice0 acc (MAX_COMMENTS_PER_PR E)"
      unfolding analyzeCode_Inr by blast
    from ne cs have "acc \<noteq> []" by (auto simp: slice0_Nil)
    with ne got acc show ?thesis by blast
  qed
  from first second show ?thesis by blast
qed

theorem no_review_without_comments_witness:
  "acquire (world_of [file_5_4]) = Inr (Some (pr0, [file_5_4])) \<and>
   accumulated (env_of [] (always (reply []))) [file_5_4] pr0 = Inr [] \<and>
   main (world_of [file_5_4]) (env_of [] (always (reply []))) = \<lparr>review_calls = [], exit_code = 0\<rparr> \<and>
   main (world_of [file_5_4]) (env_of [] (always (reply two_valid))) =
     \<lparr>review_calls = [[note_at 1, note_at 2]], exit_code = 0\<rparr>"
proof -
  have t: "trunc 10 = 10"
    using trunc_of_int [of 10] by simp
  have a: "analyzeCode (env_of [] (always (reply two_valid))) [file_5_4] pr0 =
     Inr [note_at 1, note_at 2]"
    by (simp add: analyzeCode_def accumulated_two max_default t)
  have r: "main (world_of [file_5_4]) (env_of [] (always (reply two_valid))) =
     \<lparr>review_calls = [[note_at 1, note_at 2]], exit_code = 0\<rparr>"
    by (simp add: main_def acquire_world_of a create_review_world_of)
  from no_review_without_comments [of "world_of [file_5_4]" pr0 "[file_5_4]"
      "env_of [] (always (reply []))"]
    no_review_without_comments [of "world_of [file_5_4]" pr0 "[file_5_4]"
      "env_of [] (always (reply two_valid))"]
    acquire_world_of [of "[file_5_4]"] accumulated_none [of "[]"] r
  show ?thesis by simp
qed

text \<open>
  C10: when the input \<open>MAX_COMMENTS_PER_PR\<close> is not empty and \<open>parseInt\<close> finds no
  integer in it, the maximum is NaN, \<open>analyzeCode\<close> returns no comment however many
  were accumulated, and the run creates no review.
\<close>

theorem unparsable_maximum:
  assumes "max_comments_input E \<noteq> []" and "parseInt10 (max_comments_input E) = NaN"
  shows "MAX_COMMENTS_PER_PR E = NaN \<and>
         (accumulated E fd pr = Inr acc \<longrightarrow> analyzeCode E fd pr = Inr []) \<and>
         review_calls (main W E) = []"
proof -
  from assms have m: "MAX_COMMENTS_PER_PR E = NaN"
    by (simp add: MAX_COMMENTS_PER_PR_def)
  have a: "analyzeCode E fd pr = Inr []" if "accumulated E fd pr = Inr acc" for fd pr acc
    using that m by (simp add: analyzeCode_def)
  have "review_calls (main W E) = []"
  proof (rule ccontr)
    assume "review_calls (main W E) \<noteq> []"
    then obtain cs where "cs \<in> set (review_calls (main W E))"
      by (cases "review_calls (main W E)") auto
    from main_review_calls [OF this] obtain pr fd where
      "cs \<noteq> []" "analyzeCode E fd pr = Inr cs" by blast
    with m show False by (auto simp: analyzeCode_Inr)
  qed
  with m a show ?thesis by blast
qed

theorem unparsable_maximum_witness:
  "max_comments_input (env_of (utf16 ''abc'') (always (reply two_valid))) \<noteq> [] \<and>
   parseInt10 (max_comments_input (env_of (utf16 ''abc'') (always (reply two_valid)))) = NaN \<and>
   accumulated (env_of (utf16 ''abc'') (always (reply two_valid))) [file_5_4] pr0 =
     Inr [note_at 1, note_at 2] \<and>
   analyzeCode (env_of (utf16 ''abc'') (always (reply two_valid))) [file_5_4] pr0 = Inr [] \<and>
   review_calls (main (world_of [file_5_4]) (env_of (utf16 ''abc'') (always (reply two_valid)))) = []"
proof -
  let ?E = "env_of (utf16 ''abc'') (always (reply two_valid))"
  have a: "max_comments_input ?E \<noteq> []"
    by (simp add: env_of_def utf16_def)
  have b: "parseInt10 (max_comments_input ?E) = NaN"
    by (simp add: env_of_def parse_samples)
  from unparsable_maximum [OF a b, of "[file_5_4]" pr0 "[note_at 1, note_at 2]" "world_of [file_5_4]"]
    a b accumulated_two [of "utf16 ''abc''"]
  show ?thesis by simp
qed

end
